theory Spec2Isabelle
  imports Complex_Main "HOL-Library.AList" "HOL-Library.Multiset" "HOL-Library.Word"
begin

section \<open>Data model of DailyPlanning.tsx (the version with lanes)\<close>

text \<open>
  The component keeps its working data in React state and mirrors it into two tables of
  the records store, \<open>daily_assignments\<close> and \<open>work_history\<close>. Both are modelled
  here: the React state as the fields of one record, the tables as lists of rows in
  insertion order. No uniqueness constraint of the store is visible in the sources, so
  an insert always appends and a delete removes every row that matches its filter.
  Every store call is awaited, so the operations are sequential state transformers.
\<close>

text \<open>A calendar day (\<open>toISOString().split("T")[0]\<close>) as its day number; the store
  compares days with \<open>gte\<close>.\<close>

type_synonym date = nat

text \<open>Identifiers and station names are only ever compared, and are plain strings here.
  The display names and the free text for FL are JavaScript strings whose characters
  \<open>trim\<close> reads: lists of UTF-16 code units. \<open>js\<close> gives the code units of an ASCII
  literal.\<close>

type_synonym js_string = "16 word list"

definition js :: "string \<Rightarrow> js_string" where
  "js s = map of_char s"

record Employee =
  emp_id :: string
  emp_name :: js_string
  shift :: string

record Assignment =
  employeeId :: string
  employeeName :: js_string
  station :: string
  lane :: "nat option"

text \<open>A row of \<open>daily_assignments\<close> (date column \<open>assigned_date\<close>) or of
  \<open>work_history\<close> (date column \<open>work_date\<close>).\<close>

record row =
  employee_id :: string
  row_station :: string
  row_date :: date
  row_lane :: "nat option"

text \<open>The toasts, by their title: "Ingen vald" (destructive), "Fordelning klar!" with the
  number of assigned workers, "Flyttad!" with name, station and lane.\<close>

datatype toast =
  IngenVald
  | FordelningKlar nat
  | Flyttad js_string string "nat option"

text \<open>The warning dialog; \<open>onConfirm\<close> is the closure
  \<open>() => performMove(toStation, toLane)\<close>, kept as the two arguments it captures.\<close>

record WarningDialog =
  wd_show :: bool
  wd_employeeName :: js_string
  wd_toStation :: string
  wd_count :: nat
  onConfirm :: "string \<times> nat option"

record state =
  employees :: "Employee list"
  selectedEmployees :: "string list"
  stationNeeds :: "(string \<times> int) list"
  assignments :: "Assignment list"
  flManual :: js_string
  loading :: bool
  draggedEmployee :: "Assignment option"
  warningDialog :: "WarningDialog option"
  toasts :: "toast list"
  daily_assignments :: "row list"
  work_history :: "row list"

text \<open>The clock: the day \<open>new Date()\<close> gives, and the day six months before it
  (\<open>setMonth(getMonth() - 6)\<close>).\<close>

record clock =
  today :: date
  sixMonthsAgo :: date

definition STATIONS :: "string list" where
  "STATIONS = [''Plock'', ''Autoplock'', ''Pack'', ''Auto pack'', ''KM'', ''Decating'',
     ''In/Ut'', ''Rep'', ''FL'']"

section \<open>JavaScript helpers\<close>

text \<open>\<open>Array.prototype.sort\<close> with a comparator is stable: an element moves in front
  of another only when the comparator is positive for the pair in their current order.
  Inserting from the right, an element stays in front of every later one it does not
  exceed.\<close>

fun insert_by :: "('a \<Rightarrow> 'a \<Rightarrow> int) \<Rightarrow> 'a \<Rightarrow> 'a list \<Rightarrow> 'a list" where
  "insert_by cmp x [] = [x]"
| "insert_by cmp x (y # ys) = (if cmp x y \<le> 0 then x # y # ys else y # insert_by cmp x ys)"

definition array_sort :: "('a \<Rightarrow> 'a \<Rightarrow> int) \<Rightarrow> 'a list \<Rightarrow> 'a list" where
  "array_sort cmp xs = foldr (insert_by cmp) xs []"

text \<open>\<open>String.prototype.trim\<close> removes white space and line terminators from both ends:
  TAB, LF, VT, FF, CR, SP, the no-break space U+00A0, the byte order mark U+FEFF, the line
  and paragraph separators U+2028 and U+2029, and the other space separators U+1680,
  U+2000 to U+200A, U+202F, U+205F and U+3000. Each is one code unit.\<close>

definition isWhitespace :: "16 word \<Rightarrow> bool" where
  "isWhitespace c =
     (c \<in> set [0x0009, 0x000A, 0x000B, 0x000C, 0x000D, 0x0020, 0x00A0, 0x1680,
                0x2028, 0x2029, 0x202F, 0x205F, 0x3000, 0xFEFF]
      \<or> (0x2000 \<le> c \<and> c \<le> 0x200A))"

definition trim :: "js_string \<Rightarrow> js_string" where
  "trim s = rev (dropWhile isWhitespace (rev (dropWhile isWhitespace s)))"

text \<open>\<open>stationNeeds[station] || 0\<close> and \<open>history[station] || 0\<close>: a missing key
  reads as 0.\<close>

definition needOf :: "(string \<times> int) list \<Rightarrow> string \<Rightarrow> int" where
  "needOf needs s = (case map_of needs s of None \<Rightarrow> 0 | Some n \<Rightarrow> n)"

definition histCount :: "(string \<times> nat) list \<Rightarrow> string \<Rightarrow> nat" where
  "histCount history s = (case map_of history s of None \<Rightarrow> 0 | Some n \<Rightarrow> n)"

section \<open>getEmployeeHistory\<close>

text \<open>The rows of the worker since \<open>sixMonthsAgo\<close>, counted by station into an object
  whose keys appear in the order of their first row.\<close>

definition countStation :: "(string \<times> nat) list \<Rightarrow> row \<Rightarrow> (string \<times> nat) list" where
  "countStation stationCount item =
     AList.update (row_station item) (histCount stationCount (row_station item) + 1) stationCount"

definition getEmployeeHistory :: "clock \<Rightarrow> row list \<Rightarrow> string \<Rightarrow> (string \<times> nat) list" where
  "getEmployeeHistory clk history_rows employeeId' =
     foldl countStation []
       (filter (\<lambda>r. employee_id r = employeeId' \<and> sixMonthsAgo clk \<le> row_date r) history_rows)"

section \<open>distributeEmployees\<close>

text \<open>The locals of the run that the loops change, with the two tables.\<close>

record dist_acc =
  newAssignments :: "Assignment list"
  assignedEmployees :: "string set"
  tbl_assignments :: "row list"
  tbl_history :: "row list"

text \<open>\<open>employees.find((e) => e.id === id)?.name || ""\<close>\<close>

definition empNameOf :: "Employee list \<Rightarrow> string \<Rightarrow> js_string" where
  "empNameOf emps i = (case find (\<lambda>e. emp_id e = i) emps of None \<Rightarrow> [] | Some e \<Rightarrow> emp_name e)"

text \<open>The body of the inner loop for one \<open>employee = available[i]\<close>: push the assignment,
  mark the worker, insert the row into both tables.\<close>

definition place :: "Employee list \<Rightarrow> date \<Rightarrow> string \<Rightarrow> dist_acc \<Rightarrow> string \<times> (string \<times> nat) list \<Rightarrow> dist_acc" where
  "place emps day st acc employee =
     acc\<lparr>newAssignments := newAssignments acc @
            [\<lparr>employeeId = fst employee, employeeName = empNameOf emps (fst employee),
              station = st, lane = None\<rparr>],
         assignedEmployees := insert (fst employee) (assignedEmployees acc),
         tbl_assignments := tbl_assignments acc @
            [\<lparr>employee_id = fst employee, row_station = st, row_date = day, row_lane = None\<rparr>],
         tbl_history := tbl_history acc @
            [\<lparr>employee_id = fst employee, row_station = st, row_date = day, row_lane = None\<rparr>]\<rparr>"

text \<open>\<open>for (let i = 0; i < needed && i < available.length; i++)\<close>\<close>

function place_loop ::
  "Employee list \<Rightarrow> date \<Rightarrow> string \<Rightarrow> int \<Rightarrow> (string \<times> (string \<times> nat) list) list \<Rightarrow> nat
     \<Rightarrow> dist_acc \<Rightarrow> dist_acc" where
  "place_loop emps day st needed available i acc =
     (if int i < needed \<and> i < length available
      then place_loop emps day st needed available (Suc i) (place emps day st acc (available ! i))
      else acc)"
  by pat_completeness auto
termination
  by (relation "measure (\<lambda>(emps, day, st, needed, available, i, acc). length available - i)") auto

declare place_loop.simps [simp del]

text \<open>\<open>for (const station of sortedStations)\<close>: the workers not yet assigned, sorted by
  their count at the station, fill it.\<close>

fun station_loop ::
  "Employee list \<Rightarrow> date \<Rightarrow> (string \<times> int) list \<Rightarrow> (string \<times> (string \<times> nat) list) list
     \<Rightarrow> string list \<Rightarrow> dist_acc \<Rightarrow> dist_acc" where
  "station_loop emps day needs employeeHistories [] acc = acc"
| "station_loop emps day needs employeeHistories (st # rest) acc =
     (let needed = needOf needs st;
          available = array_sort (\<lambda>a b. int (histCount (snd a) st) - int (histCount (snd b) st))
                        (filter (\<lambda>emp. fst emp \<notin> assignedEmployees acc) employeeHistories)
      in station_loop emps day needs employeeHistories rest
           (place_loop emps day st needed available 0 acc))"

definition sortedStations :: "(string \<times> int) list \<Rightarrow> string list" where
  "sortedStations needs =
     array_sort (\<lambda>a b. needOf needs b - needOf needs a)
       (filter (\<lambda>s. needOf needs s > 0) (filter (\<lambda>s. s \<noteq> ''FL'') STATIONS))"

definition distributeEmployees :: "clock \<Rightarrow> state \<Rightarrow> state" where
  "distributeEmployees clk s =
     (if length (selectedEmployees s) = 0 then s\<lparr>toasts := toasts s @ [IngenVald]\<rparr>
      else
        let cleared = filter (\<lambda>r. row_date r \<noteq> today clk) (daily_assignments s);
            employeeHistories =
              map (\<lambda>empId. (empId, getEmployeeHistory clk (work_history s) empId)) (selectedEmployees s);
            acc = station_loop (employees s) (today clk) (stationNeeds s) employeeHistories
                    (sortedStations (stationNeeds s))
                    \<lparr>newAssignments = [], assignedEmployees = {},
                     tbl_assignments = cleared, tbl_history = work_history s\<rparr>;
            snapshot =
              (if trim (flManual s) \<noteq> []
               then newAssignments acc @
                      [\<lparr>employeeId = ''manual'', employeeName = flManual s, station = ''FL'', lane = None\<rparr>]
               else newAssignments acc)
        in s\<lparr>assignments := snapshot, loading := False,
              toasts := toasts s @ [FordelningKlar (card (assignedEmployees acc))],
              daily_assignments := tbl_assignments acc, work_history := tbl_history acc\<rparr>)"

section \<open>handleDrop and performMove\<close>

text \<open>The counts are whole numbers far below \<open>2^53\<close>, where the quotient and the product
  with 1.5 compare against a whole number as the exact values do; the average is a
  rational here. \<open>sum / length || 0\<close> is 0 for the empty object (\<open>NaN || 0\<close>).\<close>

definition avgCount :: "(string \<times> nat) list \<Rightarrow> rat" where
  "avgCount history =
     (if length history = 0 then 0
      else of_nat (foldl (\<lambda>a b. a + b) 0 (map snd history)) / of_nat (length history))"

definition tooOften :: "(string \<times> nat) list \<Rightarrow> string \<Rightarrow> bool" where
  "tooOften history toStation =
     (let stationCount = histCount history toStation
      in of_nat stationCount > avgCount history * (3 / 2) \<and> stationCount > 5)"

definition performMove :: "clock \<Rightarrow> string \<Rightarrow> nat option \<Rightarrow> state \<Rightarrow> state" where
  "performMove clk toStation toLane s =
     (case draggedEmployee s of
        None \<Rightarrow> s
      | Some d \<Rightarrow>
          let updatedAssignments =
                filter (\<lambda>a. \<not> (employeeId a = employeeId d \<and> station a = station d \<and> lane a = lane d))
                  (assignments s)
                @ [d\<lparr>station := toStation, lane := toLane\<rparr>];
              del = (\<lambda>r. \<not> (employee_id r = employeeId d \<and> row_date r = today clk
                               \<and> row_station r = station d));
              new_row = \<lparr>employee_id = employeeId d, row_station = toStation,
                         row_date = today clk, row_lane = toLane\<rparr>
          in s\<lparr>assignments := updatedAssignments, draggedEmployee := None, warningDialog := None,
                loading := False,
                toasts := toasts s @ [Flyttad (employeeName d) toStation toLane],
                daily_assignments := filter del (daily_assignments s) @ [new_row],
                work_history := filter del (work_history s) @ [new_row]\<rparr>)"

definition handleDrop :: "clock \<Rightarrow> string \<Rightarrow> nat option \<Rightarrow> state \<Rightarrow> state" where
  "handleDrop clk toStation toLane s =
     (case draggedEmployee s of
        None \<Rightarrow> s\<lparr>draggedEmployee := None\<rparr>
      | Some d \<Rightarrow>
          if station d = toStation \<and> lane d = toLane then s\<lparr>draggedEmployee := None\<rparr>
          else
            let history = getEmployeeHistory clk (work_history s) (employeeId d)
            in if tooOften history toStation
               then s\<lparr>warningDialog := Some \<lparr>wd_show = True, wd_employeeName = employeeName d,
                         wd_toStation = toStation, wd_count = histCount history toStation,
                         onConfirm = (toStation, toLane)\<rparr>\<rparr>
               else performMove clk toStation toLane s)"

definition handleDragStart :: "Assignment \<Rightarrow> state \<Rightarrow> state" where
  "handleDragStart assignment s = s\<lparr>draggedEmployee := Some assignment\<rparr>"

text \<open>The \<open>onCheckedChange\<close> handler of a worker's checkbox. The box is shown checked when
  the worker is selected, so the handler is called with \<open>checked\<close> only for a worker that
  is not.\<close>

definition onCheckedChange :: "string \<Rightarrow> bool \<Rightarrow> state \<Rightarrow> state" where
  "onCheckedChange employee_id' checked s =
     (if checked then s\<lparr>selectedEmployees := selectedEmployees s @ [employee_id']\<rparr>
      else s\<lparr>selectedEmployees := filter (\<lambda>i. i \<noteq> employee_id') (selectedEmployees s)\<rparr>)"

section \<open>The statements of the specification\<close>

text \<open>What an assignment and a row say about a placement: worker, station, lane.\<close>

definition placement :: "Assignment \<Rightarrow> string \<times> string \<times> nat option" where
  "placement a = (employeeId a, station a, lane a)"

definition row_placement :: "row \<Rightarrow> string \<times> string \<times> nat option" where
  "row_placement r = (employee_id r, row_station r, row_lane r)"

definition rows_on :: "date \<Rightarrow> row list \<Rightarrow> row list" where
  "rows_on d tbl = filter (\<lambda>r. row_date r = d) tbl"

text \<open>The entries of a snapshot that stand for workers: all but those of the free-text
  station.\<close>

definition worker_entries :: "Assignment list \<Rightarrow> Assignment list" where
  "worker_entries as = filter (\<lambda>a. station a \<noteq> ''FL'') as"

text \<open>The invariant of the data model: among the worker entries no identifier occurs
  twice.\<close>

definition unique_workers :: "Assignment list \<Rightarrow> bool" where
  "unique_workers as = distinct (map employeeId (worker_entries as))"

text \<open>The planner as section 4.3 of the specification words it, step 5: for each station in
  the given order, the workers still in the pool are ranked ascending by their count at the
  station, ties in the order of the pool; the first \<open>needed\<close> are taken and leave the pool.
  \<open>sort_key\<close> is the stable sort of the library.\<close>

fun spec_plan ::
  "(string \<Rightarrow> nat) \<Rightarrow> (string \<Rightarrow> string \<Rightarrow> nat) \<Rightarrow> string list \<Rightarrow> string list
     \<Rightarrow> (string \<times> string list) list" where
  "spec_plan needed visits [] pool = []"
| "spec_plan needed visits (st # rest) pool =
     (let ranked = sort_key (\<lambda>w. visits w st) pool;
          taken = take (needed st) ranked
      in (st, taken) # spec_plan needed visits rest (filter (\<lambda>w. w \<notin> set taken) pool))"

text \<open>The inputs of the planner read off a state: the need of a station (never negative
  as a head count) and the visits of a worker at a station in the history window.\<close>

definition needed_of :: "state \<Rightarrow> string \<Rightarrow> nat" where
  "needed_of s st = nat (needOf (stationNeeds s) st)"

definition visits_of :: "clock \<Rightarrow> state \<Rightarrow> string \<Rightarrow> string \<Rightarrow> nat" where
  "visits_of clk s w st = histCount (getEmployeeHistory clk (work_history s) w) st"

text \<open>The plan of a run: the stations in the order the run processes them, the pool the
  selected workers in the order of their selection.\<close>

definition run_plan :: "clock \<Rightarrow> state \<Rightarrow> (string \<times> string list) list" where
  "run_plan clk s =
     spec_plan (needed_of s) (visits_of clk s) (sortedStations (stationNeeds s)) (selectedEmployees s)"

text \<open>The assignments and the rows a plan stands for.\<close>

definition plan_assignments :: "Employee list \<Rightarrow> (string \<times> string list) list \<Rightarrow> Assignment list" where
  "plan_assignments emps plan =
     concat (map (\<lambda>(st, ws). map (\<lambda>w. \<lparr>employeeId = w, employeeName = empNameOf emps w,
                                         station = st, lane = None\<rparr>) ws) plan)"

definition plan_rows :: "date \<Rightarrow> (string \<times> string list) list \<Rightarrow> row list" where
  "plan_rows day plan =
     concat (map (\<lambda>(st, ws). map (\<lambda>w. \<lparr>employee_id = w, row_station = st, row_date = day,
                                         row_lane = None\<rparr>) ws) plan)"

text \<open>The overuse evaluation as section 4.5 words it: the mean of the entries with a
  recorded (non-zero) visit, 0 when there is none; warn when the count at the target
  exceeds both 1.5 times that mean and 5.\<close>

definition spec_entries :: "(string \<times> nat) list \<Rightarrow> nat list" where
  "spec_entries historyMap = filter (\<lambda>v. v \<noteq> 0) (map snd historyMap)"

definition spec_avg :: "(string \<times> nat) list \<Rightarrow> rat" where
  "spec_avg historyMap =
     (if spec_entries historyMap = [] then 0
      else of_nat (sum_list (spec_entries historyMap)) / of_nat (length (spec_entries historyMap)))"

definition spec_warn :: "(string \<times> nat) list \<Rightarrow> string \<Rightarrow> bool" where
  "spec_warn historyMap toStation =
     (of_nat (histCount historyMap toStation) > (3 / 2) * spec_avg historyMap
      \<and> histCount historyMap toStation > 5)"

text \<open>Modelled from the spec: \<open>canAssignToStation\<close> of \<open>utils/stationRotation.ts\<close>, of which
  only the tests are among the sources. Section 4.2: false only when the worker's entry in
  the last-station map is the candidate station; a worker absent from the map, or with the
  entry null, may go anywhere. The tests of \<open>stationRotation.test.ts\<close> say the same.
  The \<open>Map\<close> is the list of its entries.\<close>

definition canAssignToStation :: "string \<Rightarrow> string \<Rightarrow> (string \<times> string option) list \<Rightarrow> bool" where
  "canAssignToStation employeeId' candidateStation lastStationsMap =
     (map_of lastStationsMap employeeId' \<noteq> Some (Some candidateStation))"

section \<open>Example data\<close>

definition ex_clock :: clock where
  "ex_clock = \<lparr>today = 200, sixMonthsAgo = 20\<rparr>"

definition ex_row :: "string \<Rightarrow> string \<Rightarrow> date \<Rightarrow> row" where
  "ex_row w st d = \<lparr>employee_id = w, row_station = st, row_date = d, row_lane = None\<rparr>"

definition ex_employees :: "Employee list" where
  "ex_employees = [\<lparr>emp_id = ''w1'', emp_name = js ''Anna'', shift = ''Skift 1''\<rparr>,
                   \<lparr>emp_id = ''w2'', emp_name = js ''Bo'', shift = ''Skift 1''\<rparr>,
                   \<lparr>emp_id = ''w3'', emp_name = js ''Cia'', shift = ''Skift 2''\<rparr>]"

text \<open>Three workers selected, one assignment of today left from an earlier run.\<close>

definition ex_state :: state where
  "ex_state = \<lparr>employees = ex_employees, selectedEmployees = [''w1'', ''w2'', ''w3''],
     stationNeeds = [(''Plock'', 1), (''Pack'', 3)],
     assignments = [\<lparr>employeeId = ''w1'', employeeName = js ''Anna'', station = ''Plock'', lane = None\<rparr>],
     flManual = [], loading = False, draggedEmployee = None, warningDialog = None, toasts = [],
     daily_assignments = [ex_row ''w1'' ''Plock'' 200],
     work_history = [ex_row ''w1'' ''Plock'' 200]\<rparr>"

text \<open>Needs of 2 at Pack and 1 at Plock; in the window worker w1 has been at Pack twice, w3
  once, w2 never (the row of w2 is older than the window); a free-text entry for FL.\<close>

definition ex_history_state :: state where
  "ex_history_state = \<lparr>employees = ex_employees, selectedEmployees = [''w1'', ''w2'', ''w3''],
     stationNeeds = [(''Plock'', 1), (''Pack'', 2)],
     assignments = [],
     flManual = js ''Dan'', loading = False, draggedEmployee = None, warningDialog = None, toasts = [],
     daily_assignments = [],
     work_history = [ex_row ''w1'' ''Pack'' 100, ex_row ''w3'' ''Pack'' 101, ex_row ''w1'' ''Pack'' 102,
                     ex_row ''w2'' ''Pack'' 3]\<rparr>"

text \<open>A first day: two workers selected, one needed at Plock, both tables empty.\<close>

definition ex_fresh_state :: state where
  "ex_fresh_state = \<lparr>employees = ex_employees, selectedEmployees = [''w1'', ''w2''],
     stationNeeds = [(''Plock'', 1)],
     assignments = [],
     flManual = [], loading = False, draggedEmployee = None, warningDialog = None, toasts = [],
     daily_assignments = [], work_history = []\<rparr>"

text \<open>A day under way: w1 at Plock, w2 at Pack, both tables in step; the day before w1 was
  at Pack. The entry of w1 is being dragged.\<close>

definition ex_dragged :: Assignment where
  "ex_dragged = \<lparr>employeeId = ''w1'', employeeName = js ''Anna'', station = ''Plock'', lane = None\<rparr>"

definition ex_drag_state :: state where
  "ex_drag_state = \<lparr>employees = ex_employees, selectedEmployees = [''w1'', ''w2''],
     stationNeeds = [(''Plock'', 1), (''Pack'', 1)],
     assignments = [ex_dragged,
        \<lparr>employeeId = ''w2'', employeeName = js ''Bo'', station = ''Pack'', lane = None\<rparr>],
     flManual = [], loading = False, draggedEmployee = Some ex_dragged, warningDialog = None,
     toasts = [],
     daily_assignments = [ex_row ''w1'' ''Plock'' 200, ex_row ''w2'' ''Pack'' 200],
     work_history = [ex_row ''w1'' ''Pack'' 199, ex_row ''w1'' ''Plock'' 200,
                     ex_row ''w2'' ''Pack'' 200]\<rparr>"

text \<open>The state of \<open>ex_history_state\<close> as another session may hold it: a renamed roster,
  assignments of an earlier run, rows of other days and of a worker not selected, a later
  clock.\<close>

definition ex_other_clock :: clock where
  "ex_other_clock = \<lparr>today = 201, sixMonthsAgo = 21\<rparr>"

definition ex_other_state :: state where
  "ex_other_state = ex_history_state\<lparr>
     employees := [\<lparr>emp_id = ''w1'', emp_name = js ''Anna B'', shift = ''Natt''\<rparr>],
     assignments := [ex_dragged], loading := True, toasts := [IngenVald],
     daily_assignments := [ex_row ''w1'' ''Plock'' 201, ex_row ''w2'' ''KM'' 150],
     work_history := work_history ex_history_state @ [ex_row ''w9'' ''Pack'' 150, ex_row ''w2'' ''KM'' 20]\<rparr>"

text \<open>The history of the specification's example, \<open>{A:10, B:2, C:1}\<close>, for the dragged
  worker w1.\<close>

definition ex_overuse_state :: state where
  "ex_overuse_state = ex_drag_state\<lparr>
     work_history := replicate 10 (ex_row ''w1'' ''A'' 100) @ replicate 2 (ex_row ''w1'' ''B'' 110)
                     @ [ex_row ''w1'' ''C'' 120]\<rparr>"

text \<open>Worker w1 at Pack on two dozen days of the window and nowhere else.\<close>

definition ex_single_state :: state where
  "ex_single_state = ex_drag_state\<lparr>work_history := replicate 24 (ex_row ''w1'' ''Pack'' 100)\<rparr>"

section \<open>White space\<close>

text \<open>A free text of white space only is blank, whichever white space it is; text between
  white space is kept.\<close>

lemma trim_white_space:
  "trim [0x00A0] = [] \<and> trim [0xFEFF, 0x2003, 0x0009, 0x3000] = []
   \<and> trim (js '' Dan  '') = js ''Dan''"
  by (simp add: trim_def isWhitespace_def js_def)

section \<open>The sort of the source is the stable sort by key\<close>

lemma insert_by_insort_key:
  assumes "\<And>a b. (cmp a b \<le> 0) = (k a \<le> k b)"
  shows "insert_by cmp x ys = insort_key k x ys"
  by (induction ys) (simp_all add: assms)

lemma array_sort_sort_key:
  assumes "\<And>a b. (cmp a b \<le> 0) = (k a \<le> k b)"
  shows "array_sort cmp xs = sort_key k xs"
  by (induction xs) (simp_all add: array_sort_def insert_by_insort_key [OF assms])

lemma insort_key_map:
  "insort_key f (g x) (map g ys) = map g (insort_key (\<lambda>y. f (g y)) x ys)"
  by (induction ys) simp_all

lemma sort_key_map:
  "sort_key f (map g xs) = map g (sort_key (\<lambda>y. f (g y)) xs)"
  by (induction xs) (simp_all add: insort_key_map)

lemma insort_key_cong_on:
  "f x = g x \<Longrightarrow> (\<And>y. y \<in> set ys \<Longrightarrow> f y = g y) \<Longrightarrow> insort_key f x ys = insort_key g x ys"
  by (induction ys) simp_all

lemma sort_key_cong_on:
  "(\<And>y. y \<in> set xs \<Longrightarrow> f y = g y) \<Longrightarrow> sort_key f xs = sort_key g xs"
proof (induction xs)
  case Nil
  show ?case by simp
next
  case (Cons x xs)
  have "sort_key f xs = sort_key g xs"
    using Cons by simp
  moreover have "insort_key f x (sort_key g xs) = insort_key g x (sort_key g xs)"
    by (rule insort_key_cong_on) (simp_all add: Cons.prems)
  ultimately show ?case by simp
qed


section \<open>The loops of distributeEmployees compute the plan\<close>

lemma place_loop_foldl:
  "place_loop emps day st needed available i acc
     = foldl (place emps day st) acc (drop i (take (nat needed) available))"
proof (induction emps day st needed available i acc rule: place_loop.induct)
  case (1 emps day st needed available i acc)
  show ?case
  proof (cases "int i < needed \<and> i < length available")
    case True
    then have lt': "i < nat needed" and lt'': "i < length available"
      by (simp_all add: zless_nat_eq_int_zless)
    then have lt: "i < length (take (nat needed) available)" by simp
    have nth: "take (nat needed) available ! i = available ! i"
      using lt' by simp
    have dr: "drop i (take (nat needed) available)
            = available ! i # drop (Suc i) (take (nat needed) available)"
      using Cons_nth_drop_Suc [OF lt] nth by metis
    have "place_loop emps day st needed available i acc
            = place_loop emps day st needed available (Suc i) (place emps day st acc (available ! i))"
      using True by (subst place_loop.simps) simp
    also have "\<dots> = foldl (place emps day st) (place emps day st acc (available ! i))
                       (drop (Suc i) (take (nat needed) available))"
      using "1.IH" True by blast
    also have "\<dots> = foldl (place emps day st) acc (drop i (take (nat needed) available))"
      by (subst dr) (simp only: foldl_Cons)
    finally show ?thesis .
  next
    case False
    then have "nat needed \<le> i \<or> length available \<le> i"
      by arith
    then have e: "drop i (take (nat needed) available) = []" by auto
    have "place_loop emps day st needed available i acc = acc"
      using False by (subst place_loop.simps) auto
    then show ?thesis by (simp only: e foldl_Nil)
  qed
qed

lemma foldl_place:
  "foldl (place emps day st) acc xs
     = acc\<lparr>newAssignments := newAssignments acc @
              map (\<lambda>w. \<lparr>employeeId = w, employeeName = empNameOf emps w, station = st, lane = None\<rparr>)
                (map fst xs),
           assignedEmployees := assignedEmployees acc \<union> set (map fst xs),
           tbl_assignments := tbl_assignments acc @
              map (\<lambda>w. \<lparr>employee_id = w, row_station = st, row_date = day, row_lane = None\<rparr>)
                (map fst xs),
           tbl_history := tbl_history acc @
              map (\<lambda>w. \<lparr>employee_id = w, row_station = st, row_date = day, row_lane = None\<rparr>)
                (map fst xs)\<rparr>"
proof (induction xs arbitrary: acc)
  case Nil
  show ?case by simp
next
  case (Cons x xs)
  show ?case
    by (simp add: Cons.IH) (simp add: place_def)
qed

lemma available_ranked:
  fixes sel :: "'w list"
  shows "array_sort (\<lambda>a b. int (histCount (snd a) st) - int (histCount (snd b) st))
     (filter (\<lambda>emp. fst emp \<notin> A) (map (\<lambda>w. (w, H w)) sel))
   = map (\<lambda>w. (w, H w)) (sort_key (\<lambda>w. histCount (H w) st) (filter (\<lambda>w. w \<notin> A) sel))"
proof -
  have "array_sort (\<lambda>a b. int (histCount (snd a) st) - int (histCount (snd b) st)) xs
          = sort_key (\<lambda>e. histCount (snd e) st) xs" for xs :: "('w \<times> (string \<times> nat) list) list"
    by (rule array_sort_sort_key) auto
  moreover have "filter (\<lambda>emp. fst emp \<notin> A) (map (\<lambda>w. (w, H w)) sel)
                   = map (\<lambda>w. (w, H w)) (filter (\<lambda>w. w \<notin> A) sel)"
    by (simp add: filter_map comp_def)
  ultimately show ?thesis
    by (simp add: sort_key_map)
qed

lemma station_loop_plan:
  "station_loop emps day needs (map (\<lambda>w. (w, H w)) sel) stations acc
     = acc\<lparr>newAssignments := newAssignments acc @
              plan_assignments emps
                (spec_plan (\<lambda>st. nat (needOf needs st)) (\<lambda>w st. histCount (H w) st) stations
                   (filter (\<lambda>w. w \<notin> assignedEmployees acc) sel)),
           assignedEmployees := assignedEmployees acc \<union>
              set (concat (map snd
                (spec_plan (\<lambda>st. nat (needOf needs st)) (\<lambda>w st. histCount (H w) st) stations
                   (filter (\<lambda>w. w \<notin> assignedEmployees acc) sel)))),
           tbl_assignments := tbl_assignments acc @
              plan_rows day
                (spec_plan (\<lambda>st. nat (needOf needs st)) (\<lambda>w st. histCount (H w) st) stations
                   (filter (\<lambda>w. w \<notin> assignedEmployees acc) sel)),
           tbl_history := tbl_history acc @
              plan_rows day
                (spec_plan (\<lambda>st. nat (needOf needs st)) (\<lambda>w st. histCount (H w) st) stations
                   (filter (\<lambda>w. w \<notin> assignedEmployees acc) sel))\<rparr>"
proof (induction stations arbitrary: acc)
  case Nil
  show ?case by (simp add: plan_assignments_def plan_rows_def)
next
  case (Cons st rest)
  define pool where "pool = filter (\<lambda>w. w \<notin> assignedEmployees acc) sel"
  define taken where "taken = take (nat (needOf needs st)) (sort_key (\<lambda>w. histCount (H w) st) pool)"
  define acc1 where "acc1 = foldl (place emps day st) acc (map (\<lambda>w. (w, H w)) taken)"
  have step: "station_loop emps day needs (map (\<lambda>w. (w, H w)) sel) (st # rest) acc
                = station_loop emps day needs (map (\<lambda>w. (w, H w)) sel) rest acc1"
    by (simp add: Let_def place_loop_foldl available_ranked take_map acc1_def taken_def pool_def)
  have assigned1: "assignedEmployees acc1 = assignedEmployees acc \<union> set taken"
    by (simp add: acc1_def foldl_place comp_def)
  have pool1: "filter (\<lambda>w. w \<notin> assignedEmployees acc1) sel = filter (\<lambda>w. w \<notin> set taken) pool"
    by (auto simp add: assigned1 pool_def intro: filter_cong)
  have plan: "spec_plan (\<lambda>st. nat (needOf needs st)) (\<lambda>w st. histCount (H w) st) (st # rest) pool
                = (st, taken) # spec_plan (\<lambda>st. nat (needOf needs st)) (\<lambda>w st. histCount (H w) st) rest
                                  (filter (\<lambda>w. w \<notin> set taken) pool)"
    by (simp add: Let_def taken_def)
  show ?case
    unfolding step Cons.IH [of acc1] pool1 pool_def [symmetric] plan
    by (simp add: acc1_def foldl_place comp_def plan_assignments_def plan_rows_def Un_assoc)
qed

lemma distribute_run:
  assumes "selectedEmployees s \<noteq> []"
  shows "distributeEmployees clk s
           = s\<lparr>assignments := plan_assignments (employees s) (run_plan clk s) @
                  (if trim (flManual s) \<noteq> []
                   then [\<lparr>employeeId = ''manual'', employeeName = flManual s, station = ''FL'', lane = None\<rparr>]
                   else []),
                loading := False,
                toasts := toasts s @ [FordelningKlar (card (set (concat (map snd (run_plan clk s)))))],
                daily_assignments := filter (\<lambda>r. row_date r \<noteq> today clk) (daily_assignments s) @
                  plan_rows (today clk) (run_plan clk s),
                work_history := work_history s @ plan_rows (today clk) (run_plan clk s)\<rparr>"
proof -
  have plan: "spec_plan (\<lambda>st. nat (needOf (stationNeeds s) st))
                (\<lambda>w st. histCount (getEmployeeHistory clk (work_history s) w) st)
                (sortedStations (stationNeeds s)) (selectedEmployees s) = run_plan clk s"
    by (simp add: run_plan_def needed_of_def [abs_def] visits_of_def [abs_def])
  show ?thesis
    using assms
    by (simp add: distributeEmployees_def Let_def station_loop_plan plan)
qed

lemma spec_plan_stations: "map fst (spec_plan N V sts pool) = sts"
  by (induction sts arbitrary: pool) (simp_all add: Let_def)

lemma spec_plan_workers_subset: "set (concat (map snd (spec_plan N V sts pool))) \<subseteq> set pool"
proof (induction sts arbitrary: pool)
  case Nil
  show ?case by simp
next
  case (Cons st rest)
  have "set (take (N st) (sort_key (\<lambda>w. V w st) pool)) \<subseteq> set pool"
    using set_take_subset [of "N st" "sort_key (\<lambda>w. V w st) pool"] by simp
  moreover have "set (concat (map snd (spec_plan N V rest
                    (filter (\<lambda>w. w \<notin> set (take (N st) (sort_key (\<lambda>w. V w st) pool))) pool))))
                  \<subseteq> set pool"
    using Cons.IH [of "filter (\<lambda>w. w \<notin> set (take (N st) (sort_key (\<lambda>w. V w st) pool))) pool"]
    by auto
  ultimately show ?case by (simp add: Let_def)
qed

lemma spec_plan_workers_distinct:
  "distinct pool \<Longrightarrow> distinct (concat (map snd (spec_plan N V sts pool)))"
proof (induction sts arbitrary: pool)
  case Nil
  show ?case by simp
next
  case (Cons st rest)
  define taken where "taken = take (N st) (sort_key (\<lambda>w. V w st) pool)"
  define pool' where "pool' = filter (\<lambda>w. w \<notin> set taken) pool"
  have d1: "distinct taken"
    using Cons.prems by (simp add: taken_def)
  have d2: "distinct (concat (map snd (spec_plan N V rest pool')))"
    using Cons.IH [of pool'] Cons.prems by (simp add: pool'_def)
  have "set (concat (map snd (spec_plan N V rest pool'))) \<subseteq> set pool'"
    by (rule spec_plan_workers_subset)
  then have d3: "set taken \<inter> set (concat (map snd (spec_plan N V rest pool'))) = {}"
    by (auto simp add: pool'_def)
  show ?case
    using d1 d2 d3 by (simp add: Let_def taken_def [symmetric] pool'_def [symmetric])
qed

lemma spec_plan_length:
  "(st, ws) \<in> set (spec_plan N V sts pool) \<Longrightarrow> length ws \<le> N st"
  by (induction sts arbitrary: pool) (auto simp add: Let_def)

lemma spec_plan_cong:
  "(\<And>w st. w \<in> set pool \<Longrightarrow> V w st = V' w st) \<Longrightarrow> spec_plan N V sts pool = spec_plan N V' sts pool"
proof (induction sts arbitrary: pool)
  case Nil
  show ?case by simp
next
  case (Cons st rest)
  have r: "sort_key (\<lambda>w. V w st) pool = sort_key (\<lambda>w. V' w st) pool"
    by (rule sort_key_cong_on) (rule Cons.prems)
  have "spec_plan N V rest (filter (\<lambda>w. w \<notin> set (take (N st) (sort_key (\<lambda>w. V' w st) pool))) pool)
          = spec_plan N V' rest (filter (\<lambda>w. w \<notin> set (take (N st) (sort_key (\<lambda>w. V' w st) pool))) pool)"
    by (rule Cons.IH) (simp add: Cons.prems)
  then show ?case by (simp add: Let_def r)
qed

lemma plan_assignments_ids: "map employeeId (plan_assignments emps P) = concat (map snd P)"
  by (induction P) (auto simp add: plan_assignments_def comp_def)

lemma plan_rows_ids: "map employee_id (plan_rows day P) = concat (map snd P)"
  by (induction P) (auto simp add: plan_rows_def comp_def)

lemma plan_assignments_Cons:
  "plan_assignments emps ((st, ws) # P)
     = map (\<lambda>w. \<lparr>employeeId = w, employeeName = empNameOf emps w, station = st, lane = None\<rparr>) ws
       @ plan_assignments emps P"
  by (simp add: plan_assignments_def)

lemma plan_rows_Cons:
  "plan_rows day ((st, ws) # P)
     = map (\<lambda>w. \<lparr>employee_id = w, row_station = st, row_date = day, row_lane = None\<rparr>) ws
       @ plan_rows day P"
  by (simp add: plan_rows_def)

lemma plan_assignments_station:
  "a \<in> set (plan_assignments emps P) \<Longrightarrow> station a \<in> fst ` set P \<and> lane a = None"
  by (induction P) (auto simp add: plan_assignments_Cons plan_assignments_def)

lemma plan_rows_station:
  "r \<in> set (plan_rows day P) \<Longrightarrow> row_station r \<in> fst ` set P \<and> row_date r = day \<and> row_lane r = None"
  by (induction P) (auto simp add: plan_rows_Cons plan_rows_def)

lemma plan_assignments_placement:
  "map placement (plan_assignments emps P) = map row_placement (plan_rows day P)"
  by (induction P) (auto simp add: plan_assignments_def plan_rows_def placement_def row_placement_def)

lemma sortedStations_sort_key:
  "sortedStations needs
     = sort_key (\<lambda>s. - needOf needs s)
         (filter (\<lambda>s. needOf needs s > 0) (filter (\<lambda>s. s \<noteq> ''FL'') STATIONS))"
  unfolding sortedStations_def by (rule array_sort_sort_key) auto

lemma distinct_STATIONS: "distinct STATIONS"
  by (simp add: STATIONS_def)

lemma set_sortedStations:
  "set (sortedStations needs) = {s \<in> set STATIONS. s \<noteq> ''FL'' \<and> 0 < needOf needs s}"
  by (auto simp add: sortedStations_sort_key)

lemma distinct_sortedStations: "distinct (sortedStations needs)"
  by (simp add: sortedStations_sort_key distinct_STATIONS)

section \<open>What a run leaves in the snapshot and in the tables\<close>

lemma FL_notin_sortedStations: "''FL'' \<notin> set (sortedStations needs)"
  by (simp add: set_sortedStations)

lemma run_plan_stations: "map fst (run_plan clk s) = sortedStations (stationNeeds s)"
  by (simp add: run_plan_def spec_plan_stations)

lemma worker_entries_plan:
  "''FL'' \<notin> fst ` set P \<Longrightarrow> worker_entries (plan_assignments emps P) = plan_assignments emps P"
proof -
  assume nf: "''FL'' \<notin> fst ` set P"
  have "station a \<noteq> ''FL''" if "a \<in> set (plan_assignments emps P)" for a
    using plan_assignments_station [OF that] nf by metis
  then show ?thesis
    unfolding worker_entries_def by (intro filter_True) simp
qed

lemma worker_entries_distribute:
  assumes "selectedEmployees s \<noteq> []"
  shows "worker_entries (assignments (distributeEmployees clk s))
           = plan_assignments (employees s) (run_plan clk s)"
proof -
  have "''FL'' \<notin> fst ` set (run_plan clk s)"
    using run_plan_stations [of clk s] FL_notin_sortedStations [of "stationNeeds s"]
    by (metis set_map)
  then have "worker_entries (plan_assignments (employees s) (run_plan clk s))
               = plan_assignments (employees s) (run_plan clk s)"
    by (rule worker_entries_plan)
  then show ?thesis
    by (simp add: distribute_run [OF assms] worker_entries_def)
qed

lemma rows_on_distribute:
  assumes "selectedEmployees s \<noteq> []"
  shows "rows_on (today clk) (daily_assignments (distributeEmployees clk s))
           = plan_rows (today clk) (run_plan clk s)"
proof -
  have "filter (\<lambda>r. row_date r = today clk) (plan_rows (today clk) (run_plan clk s))
          = plan_rows (today clk) (run_plan clk s)"
    by (rule filter_True) (auto dest: plan_rows_station)
  moreover have "filter (\<lambda>r. row_date r = today clk)
                   (filter (\<lambda>r. row_date r \<noteq> today clk) (daily_assignments s)) = []"
    by (simp add: filter_empty_conv)
  ultimately show ?thesis
    by (simp add: distribute_run [OF assms] rows_on_def)
qed

lemma plan_count_absent:
  "st \<notin> fst ` set P \<Longrightarrow> filter (\<lambda>a. station a = st) (plan_assignments emps P) = []"
  by (auto simp add: filter_empty_conv dest: plan_assignments_station)

lemma plan_rows_count_absent:
  "st \<notin> fst ` set P \<Longrightarrow> filter (\<lambda>r. row_station r = st) (plan_rows day P) = []"
  by (auto simp add: filter_empty_conv dest: plan_rows_station)

lemma plan_count_le:
  "distinct sts \<Longrightarrow>
     length (filter (\<lambda>a. station a = st) (plan_assignments emps (spec_plan N V sts pool))) \<le> N st"
proof (induction sts arbitrary: pool)
  case Nil
  show ?case by (simp add: plan_assignments_def)
next
  case (Cons st0 rest)
  define taken where "taken = take (N st0) (sort_key (\<lambda>w. V w st0) pool)"
  define P' where "P' = spec_plan N V rest (filter (\<lambda>w. w \<notin> set taken) pool)"
  have plan: "spec_plan N V (st0 # rest) pool = (st0, taken) # P'"
    by (simp add: Let_def taken_def P'_def)
  show ?case
  proof (cases "st0 = st")
    case True
    then have "st \<notin> fst ` set P'"
      using Cons.prems spec_plan_stations [of N V rest "filter (\<lambda>w. w \<notin> set taken) pool"]
      by (metis P'_def distinct.simps(2) set_map)
    then have "filter (\<lambda>a. station a = st) (plan_assignments emps P') = []"
      by (rule plan_count_absent)
    moreover have "length taken \<le> N st"
      using True by (simp add: taken_def)
    ultimately have "length (filter (\<lambda>a. station a = st) (plan_assignments emps ((st0, taken) # P')))
                       \<le> N st"
      using True by (simp add: plan_assignments_Cons comp_def)
    then show ?thesis
      unfolding plan .
  next
    case False
    have "length (filter (\<lambda>a. station a = st) (plan_assignments emps P')) \<le> N st"
      unfolding P'_def using Cons.prems by (intro Cons.IH) simp
    then have "length (filter (\<lambda>a. station a = st) (plan_assignments emps ((st0, taken) # P')))
                 \<le> N st"
      using False by (simp add: plan_assignments_Cons comp_def)
    then show ?thesis
      unfolding plan .
  qed
qed

lemma plan_rows_count:
  "length (filter (\<lambda>r. row_station r = st) (plan_rows day P))
     = length (filter (\<lambda>a. station a = st) (plan_assignments emps P))"
  by (induction P) (auto simp add: plan_rows_def plan_assignments_def comp_def)

section \<open>Who is taken at a station\<close>

text \<open>The ranking of the planner: ascending in the visit count, the same workers, and among
  workers of equal count the order of the pool.\<close>

lemma ranking_ascending_stable:
  "sorted (map (\<lambda>w. V w st) (sort_key (\<lambda>w. V w st) pool))
   \<and> mset (sort_key (\<lambda>w. V w st) pool) = mset pool
   \<and> filter (\<lambda>w. V w st = k) (sort_key (\<lambda>w. V w st) pool) = filter (\<lambda>w. V w st = k) pool"
  by (simp add: sort_key_stable)

text \<open>
  C4. A run places, station by station in the order it processes them, the workers that the
  planner of the specification takes: of the workers still in the pool, ranked ascending by
  their visit count at the station (a missing entry counting 0) with ties in the order of
  the selection, the first \<open>needed\<close>, or all when the pool is smaller; the workers taken
  have left the pool of the stations that follow. The worker entries of the snapshot and the
  rows inserted for the day are those of this plan.
\<close>

theorem distribute_takes_least_visited_first:
  "selectedEmployees s \<noteq> [] \<Longrightarrow>
     worker_entries (assignments (distributeEmployees clk s))
       = plan_assignments (employees s)
           (spec_plan (needed_of s) (visits_of clk s) (sortedStations (stationNeeds s))
              (selectedEmployees s))
     \<and> rows_on (today clk) (daily_assignments (distributeEmployees clk s))
       = plan_rows (today clk)
           (spec_plan (needed_of s) (visits_of clk s) (sortedStations (stationNeeds s))
              (selectedEmployees s))"
  using worker_entries_distribute [of s clk] rows_on_distribute [of s clk]
  by (simp add: run_plan_def)

theorem distribute_takes_least_visited_first_witness:
  "selectedEmployees ex_history_state \<noteq> []
   \<and> worker_entries (assignments (distributeEmployees ex_clock ex_history_state))
       = plan_assignments ex_employees [(''Pack'', [''w2'', ''w3'']), (''Plock'', [''w1''])]
   \<and> rows_on 200 (daily_assignments (distributeEmployees ex_clock ex_history_state))
       = [ex_row ''w2'' ''Pack'' 200, ex_row ''w3'' ''Pack'' 200, ex_row ''w1'' ''Plock'' 200]"
proof -
  have sel: "selectedEmployees ex_history_state \<noteq> []"
    by (simp add: ex_history_state_def)
  have plan: "spec_plan (needed_of ex_history_state) (visits_of ex_clock ex_history_state)
                (sortedStations (stationNeeds ex_history_state)) (selectedEmployees ex_history_state)
              = [(''Pack'', [''w2'', ''w3'']), (''Plock'', [''w1''])]"
    by code_simp
  have emps: "employees ex_history_state = ex_employees"
    by (simp add: ex_history_state_def)
  have day: "today ex_clock = 200"
    by (simp add: ex_clock_def)
  show ?thesis
    using distribute_takes_least_visited_first [OF sel, of ex_clock] sel
    by (simp add: plan emps day plan_rows_def ex_row_def)
qed

section \<open>No station above its need\<close>

text \<open>
  C7. For every station, a run places at most as many workers there as the station needs
  (none where the need is zero or less): in the snapshot and among the rows of the day.
\<close>

theorem distribute_respects_need:
  "selectedEmployees s \<noteq> [] \<Longrightarrow>
     length (filter (\<lambda>a. station a = st) (worker_entries (assignments (distributeEmployees clk s))))
       \<le> nat (needOf (stationNeeds s) st)
     \<and> length (filter (\<lambda>r. row_station r = st)
                 (rows_on (today clk) (daily_assignments (distributeEmployees clk s))))
       \<le> nat (needOf (stationNeeds s) st)"
proof -
  assume sel: "selectedEmployees s \<noteq> []"
  have "length (filter (\<lambda>a. station a = st) (plan_assignments (employees s) (run_plan clk s)))
          \<le> needed_of s st"
    unfolding run_plan_def by (rule plan_count_le) (rule distinct_sortedStations)
  then show ?thesis
    by (simp add: worker_entries_distribute [OF sel] rows_on_distribute [OF sel]
          plan_rows_count [of st "today clk" "run_plan clk s" "employees s"] needed_of_def)
qed

theorem distribute_respects_need_witness:
  "selectedEmployees ex_state \<noteq> []
   \<and> length (filter (\<lambda>a. station a = ''Pack'')
               (worker_entries (assignments (distributeEmployees ex_clock ex_state)))) \<le> 3
   \<and> length (filter (\<lambda>r. row_station r = ''Pack'')
               (rows_on (today ex_clock) (daily_assignments (distributeEmployees ex_clock ex_state)))) \<le> 3"
proof -
  have sel: "selectedEmployees ex_state \<noteq> []"
    by (simp add: ex_state_def)
  have need: "nat (needOf (stationNeeds ex_state) ''Pack'') = 3"
    by (simp add: ex_state_def needOf_def)
  show ?thesis
    using distribute_respects_need [OF sel, of "''Pack''" ex_clock] sel
    by (simp only: need) simp
qed

section \<open>The order of the stations\<close>





section \<open>One entry for a worker\<close>

lemma plan_one_station_per_worker:
  "a \<in> set (plan_assignments emps (spec_plan N V sts pool)) \<Longrightarrow>
   b \<in> set (plan_assignments emps (spec_plan N V sts pool)) \<Longrightarrow>
   employeeId a = employeeId b \<Longrightarrow> station a = station b"
proof (induction sts arbitrary: pool)
  case Nil
  then show ?case by (simp add: plan_assignments_def)
next
  case (Cons st0 rest)
  define taken where "taken = take (N st0) (sort_key (\<lambda>w. V w st0) pool)"
  define P' where "P' = spec_plan N V rest (filter (\<lambda>w. w \<notin> set taken) pool)"
  define hd_part where
    "hd_part = map (\<lambda>w. \<lparr>employeeId = w, employeeName = empNameOf emps w, station = st0, lane = None\<rparr>) taken"
  have plan: "plan_assignments emps (spec_plan N V (st0 # rest) pool)
                = hd_part @ plan_assignments emps P'"
    by (simp add: Let_def taken_def P'_def hd_part_def plan_assignments_Cons)
  have hd: "employeeId x \<in> set taken \<and> station x = st0" if "x \<in> set hd_part" for x
    using that by (auto simp add: hd_part_def)
  have tl: "employeeId x \<notin> set taken" if "x \<in> set (plan_assignments emps P')" for x
  proof -
    have "employeeId x \<in> set (map employeeId (plan_assignments emps P'))"
      using that by simp
    then have "employeeId x \<in> set (concat (map snd P'))"
      by (simp only: plan_assignments_ids)
    then have "employeeId x \<in> set (filter (\<lambda>w. w \<notin> set taken) pool)"
      using spec_plan_workers_subset [of N V rest "filter (\<lambda>w. w \<notin> set taken) pool"]
      unfolding P'_def by blast
    then show ?thesis by simp
  qed
  have a: "a \<in> set hd_part \<or> a \<in> set (plan_assignments emps P')"
    using Cons.prems(1) unfolding plan by simp
  have b: "b \<in> set hd_part \<or> b \<in> set (plan_assignments emps P')"
    using Cons.prems(2) unfolding plan by simp
  show ?case
    using a b hd tl Cons.prems(3) Cons.IH [of "filter (\<lambda>w. w \<notin> set taken) pool"]
    unfolding P'_def [symmetric] by metis
qed

lemma unique_workers_distribute:
  assumes "selectedEmployees s \<noteq> []" and "distinct (selectedEmployees s)"
  shows "unique_workers (assignments (distributeEmployees clk s))"
    and "distinct (map employee_id (rows_on (today clk) (daily_assignments (distributeEmployees clk s))))"
proof -
  have "distinct (concat (map snd (run_plan clk s)))"
    unfolding run_plan_def by (rule spec_plan_workers_distinct) (rule assms(2))
  then show "unique_workers (assignments (distributeEmployees clk s))"
    and "distinct (map employee_id (rows_on (today clk) (daily_assignments (distributeEmployees clk s))))"
    by (simp_all add: unique_workers_def worker_entries_distribute [OF assms(1)]
          rows_on_distribute [OF assms(1)] plan_assignments_ids plan_rows_ids)
qed

lemma unique_workers_performMove:
  assumes u: "unique_workers (assignments s)" and dr: "draggedEmployee s = Some d"
    and mem: "d \<in> set (assignments s)" and fl: "station d \<noteq> ''FL''"
  shows "unique_workers (assignments (performMove clk toStation toLane s))"
proof -
  define keep where
    "keep = filter (\<lambda>a. \<not> (employeeId a = employeeId d \<and> station a = station d \<and> lane a = lane d))
              (assignments s)"
  have snap: "assignments (performMove clk toStation toLane s)
                = keep @ [d\<lparr>station := toStation, lane := toLane\<rparr>]"
    by (simp add: performMove_def dr keep_def Let_def)
  have dw: "d \<in> set (worker_entries (assignments s))"
    using mem fl by (simp add: worker_entries_def)
  have others: "employeeId a \<noteq> employeeId d" if "a \<in> set (worker_entries keep)" for a
  proof
    assume eq: "employeeId a = employeeId d"
    have aw: "a \<in> set (worker_entries (assignments s))"
      using that by (auto simp add: keep_def worker_entries_def)
    have "inj_on employeeId (set (worker_entries (assignments s)))"
      using u by (simp add: unique_workers_def distinct_map)
    then have "a = d"
      using aw dw eq by (auto dest: inj_onD)
    then show False
      using that by (simp add: keep_def worker_entries_def)
  qed
  have dk: "distinct (map employeeId (worker_entries keep))"
  proof -
    have "worker_entries keep
            = filter (\<lambda>a. \<not> (employeeId a = employeeId d \<and> station a = station d \<and> lane a = lane d))
                (worker_entries (assignments s))"
      by (simp add: keep_def worker_entries_def conj_commute)
    then show ?thesis
      using u by (simp add: unique_workers_def distinct_map_filter)
  qed
  have nd: "employeeId d \<notin> set (map employeeId (worker_entries keep))"
    using others by (metis (no_types, lifting) imageE set_map)
  have "map employeeId (worker_entries (keep @ [d\<lparr>station := toStation, lane := toLane\<rparr>]))
          = map employeeId (worker_entries keep) @ (if toStation \<noteq> ''FL'' then [employeeId d] else [])"
    by (simp add: worker_entries_def)
  then show ?thesis
    using dk nd unfolding snap unique_workers_def by simp
qed

lemma unique_workers_handleDrop:
  assumes "unique_workers (assignments s)" and "draggedEmployee s = Some d"
    and "d \<in> set (assignments s)" and "station d \<noteq> ''FL''"
  shows "unique_workers (assignments (handleDrop clk toStation toLane s))"
  using assms unique_workers_performMove [OF assms, of clk toStation toLane]
  by (simp add: handleDrop_def Let_def)

lemma rows_distinct_performMove:
  assumes dist: "distinct (map employee_id (rows_on (today clk) (daily_assignments s)))"
    and dr: "draggedEmployee s = Some d"
    and at: "\<And>r. r \<in> set (rows_on (today clk) (daily_assignments s)) \<Longrightarrow>
               employee_id r = employeeId d \<Longrightarrow> row_station r = station d"
  shows "distinct (map employee_id
           (rows_on (today clk) (daily_assignments (performMove clk toStation toLane s))))"
proof -
  define keep where
    "keep = filter (\<lambda>r. employee_id r \<noteq> employeeId d) (rows_on (today clk) (daily_assignments s))"
  have "filter (\<lambda>r. row_date r = today clk)
          (filter (\<lambda>r. \<not> (employee_id r = employeeId d \<and> row_date r = today clk
                               \<and> row_station r = station d)) (daily_assignments s))
        = filter (\<lambda>r. employee_id r \<noteq> employeeId d)
            (filter (\<lambda>r. row_date r = today clk) (daily_assignments s))"
    unfolding filter_filter
    using at by (intro filter_cong) (auto simp add: rows_on_def)
  then have rows: "rows_on (today clk) (daily_assignments (performMove clk toStation toLane s))
          = keep @ [\<lparr>employee_id = employeeId d, row_station = toStation,
                     row_date = today clk, row_lane = toLane\<rparr>]"
    by (simp add: performMove_def dr Let_def rows_on_def keep_def)
  have "distinct (map employee_id keep)"
    unfolding keep_def using dist by (rule distinct_map_filter)
  moreover have "employeeId d \<notin> set (map employee_id keep)"
    by (auto simp add: keep_def)
  ultimately show ?thesis
    unfolding rows by simp
qed

text \<open>What holds: a run over a selection without repetitions leaves every worker identifier
  in at most one worker entry and one row of the day, and whatever the selection no worker
  at two stations; a move keeps the identifiers of the snapshot distinct when the dragged
  entry is an entry of the snapshot, and those of the rows distinct when the rows of the
  day have the dragged worker at the station of the dragged entry only. Ticking a worker
  that is not selected keeps the selection free of repetitions, and a drag starts from an
  entry of the snapshot.\<close>

lemma onCheckedChange_distinct:
  "distinct (selectedEmployees s) \<Longrightarrow> checked = (i \<notin> set (selectedEmployees s)) \<Longrightarrow>
     distinct (selectedEmployees (onCheckedChange i checked s))"
  by (simp add: onCheckedChange_def)

lemma handleDragStart_entry:
  "a \<in> set (assignments s) \<Longrightarrow>
     draggedEmployee (handleDragStart a s) = Some a \<and> a \<in> set (assignments (handleDragStart a s))"
  by (simp add: handleDragStart_def)

lemma one_entry_when_drag_is_current:
  "(selectedEmployees s \<noteq> [] \<and> distinct (selectedEmployees s)
      \<longrightarrow> unique_workers (assignments (distributeEmployees clk s))
          \<and> distinct (map employee_id
                (rows_on (today clk) (daily_assignments (distributeEmployees clk s)))))
   \<and> (selectedEmployees s \<noteq> []
      \<longrightarrow> (\<forall>a \<in> set (worker_entries (assignments (distributeEmployees clk s))).
           \<forall>b \<in> set (worker_entries (assignments (distributeEmployees clk s))).
             employeeId a = employeeId b \<longrightarrow> station a = station b))
   \<and> (unique_workers (assignments s) \<and> draggedEmployee s = Some d \<and> d \<in> set (assignments s)
        \<and> station d \<noteq> ''FL''
      \<longrightarrow> unique_workers (assignments (performMove clk toStation toLane s))
          \<and> unique_workers (assignments (handleDrop clk toStation toLane s)))
   \<and> (distinct (map employee_id (rows_on (today clk) (daily_assignments s)))
        \<and> draggedEmployee s = Some d
        \<and> (\<forall>r \<in> set (rows_on (today clk) (daily_assignments s)).
              employee_id r = employeeId d \<longrightarrow> row_station r = station d)
      \<longrightarrow> distinct (map employee_id
             (rows_on (today clk) (daily_assignments (performMove clk toStation toLane s)))))"
proof (intro conjI impI ballI)
  assume "selectedEmployees s \<noteq> [] \<and> distinct (selectedEmployees s)"
  then show "unique_workers (assignments (distributeEmployees clk s))"
    and "distinct (map employee_id (rows_on (today clk) (daily_assignments (distributeEmployees clk s))))"
    using unique_workers_distribute [of s clk] by simp_all
next
  fix a b
  assume "selectedEmployees s \<noteq> []"
    and "a \<in> set (worker_entries (assignments (distributeEmployees clk s)))"
    and "b \<in> set (worker_entries (assignments (distributeEmployees clk s)))"
    and "employeeId a = employeeId b"
  then show "station a = station b"
    using plan_one_station_per_worker [of a "employees s" "needed_of s" "visits_of clk s"
        "sortedStations (stationNeeds s)" "selectedEmployees s" b]
    by (simp add: worker_entries_distribute run_plan_def)
next
  assume h: "unique_workers (assignments s) \<and> draggedEmployee s = Some d \<and> d \<in> set (assignments s)
        \<and> station d \<noteq> ''FL''"
  then show "unique_workers (assignments (performMove clk toStation toLane s))"
    using unique_workers_performMove [of s d clk toStation toLane] by simp
  from h show "unique_workers (assignments (handleDrop clk toStation toLane s))"
    using unique_workers_handleDrop [of s d clk toStation toLane] by simp
next
  assume h: "distinct (map employee_id (rows_on (today clk) (daily_assignments s)))
        \<and> draggedEmployee s = Some d
        \<and> (\<forall>r \<in> set (rows_on (today clk) (daily_assignments s)).
              employee_id r = employeeId d \<longrightarrow> row_station r = station d)"
  then show "distinct (map employee_id
             (rows_on (today clk) (daily_assignments (performMove clk toStation toLane s))))"
    by (intro rows_distinct_performMove [of clk s d]) auto
qed

text \<open>A run replaces the snapshot and the rows of the day and leaves the dragged entry as it
  was; only the drop handler and the move clear it.\<close>

lemma distribute_keeps_draggedEmployee:
  "draggedEmployee (distributeEmployees clk s) = draggedEmployee s"
  by (simp add: distributeEmployees_def Let_def)

text \<open>
  C6 asks that a worker identifier stands in at most one assignment entry of the day after
  every run and every move. It fails for a drag begun before a run and dropped after it.
  In \<open>ex_drag_state\<close> each worker has one entry and one row, and the entry of w1 at Plock is
  being dragged. The run places w2 at Plock and w1 at Pack and keeps the dragged entry. The
  drop on lane 2 of Pack then finds no entry and no row of w1 at Plock to remove and adds
  w1 at lane 2 of Pack: w1 stands in two entries of the snapshot and in two rows of the day.
\<close>

theorem stale_drop_duplicates_worker:
  "handleDragStart ex_dragged (ex_drag_state\<lparr>draggedEmployee := None\<rparr>) = ex_drag_state
   \<and> unique_workers (assignments ex_drag_state)
   \<and> map row_placement (rows_on 200 (daily_assignments ex_drag_state))
       = [(''w1'', ''Plock'', None), (''w2'', ''Pack'', None)]
   \<and> map placement (assignments (distributeEmployees ex_clock ex_drag_state))
       = [(''w2'', ''Plock'', None), (''w1'', ''Pack'', None)]
   \<and> draggedEmployee (distributeEmployees ex_clock ex_drag_state) = Some ex_dragged
   \<and> map placement
        (assignments (handleDrop ex_clock ''Pack'' (Some 2) (distributeEmployees ex_clock ex_drag_state)))
       = [(''w2'', ''Plock'', None), (''w1'', ''Pack'', None), (''w1'', ''Pack'', Some 2)]
   \<and> map row_placement (rows_on 200
        (daily_assignments (handleDrop ex_clock ''Pack'' (Some 2) (distributeEmployees ex_clock ex_drag_state))))
       = [(''w2'', ''Plock'', None), (''w1'', ''Pack'', None), (''w1'', ''Pack'', Some 2)]
   \<and> \<not> unique_workers
        (assignments (handleDrop ex_clock ''Pack'' (Some 2) (distributeEmployees ex_clock ex_drag_state)))"
proof -
  have s0: "handleDragStart ex_dragged (ex_drag_state\<lparr>draggedEmployee := None\<rparr>) = ex_drag_state"
    by (simp add: handleDragStart_def ex_drag_state_def)
  have u0: "unique_workers (assignments ex_drag_state)"
    by (simp add: ex_drag_state_def ex_dragged_def unique_workers_def worker_entries_def)
  have r0: "map row_placement (rows_on 200 (daily_assignments ex_drag_state))
       = [(''w1'', ''Plock'', None), (''w2'', ''Pack'', None)]"
    by code_simp
  have a1: "map placement (assignments (distributeEmployees ex_clock ex_drag_state))
       = [(''w2'', ''Plock'', None), (''w1'', ''Pack'', None)]"
    by code_simp
  have d1: "draggedEmployee (distributeEmployees ex_clock ex_drag_state) = Some ex_dragged"
    by (simp add: distribute_keeps_draggedEmployee) (simp add: ex_drag_state_def)
  have a2: "map placement
        (assignments (handleDrop ex_clock ''Pack'' (Some 2) (distributeEmployees ex_clock ex_drag_state)))
       = [(''w2'', ''Plock'', None), (''w1'', ''Pack'', None), (''w1'', ''Pack'', Some 2)]"
    by code_simp
  have r2: "map row_placement (rows_on 200
        (daily_assignments (handleDrop ex_clock ''Pack'' (Some 2) (distributeEmployees ex_clock ex_drag_state))))
       = [(''w2'', ''Plock'', None), (''w1'', ''Pack'', None), (''w1'', ''Pack'', Some 2)]"
    by code_simp
  have u2: "\<not> unique_workers
        (assignments (handleDrop ex_clock ''Pack'' (Some 2) (distributeEmployees ex_clock ex_drag_state)))"
    by code_simp
  show ?thesis
    using s0 u0 r0 a1 d1 a2 r2 u2 by blast
qed

section \<open>The run is a function of its inputs\<close>

lemma plan_assignments_cong:
  "(\<And>w. w \<in> set (concat (map snd P)) \<Longrightarrow> empNameOf emps w = empNameOf emps' w)
     \<Longrightarrow> plan_assignments emps P = plan_assignments emps' P"
proof (induction P)
  case Nil
  show ?case by (simp add: plan_assignments_def)
next
  case (Cons p P)
  obtain st ws where p: "p = (st, ws)" by (cases p)
  have "plan_assignments emps P = plan_assignments emps' P"
    by (rule Cons.IH) (simp add: Cons.prems)
  moreover have "empNameOf emps w = empNameOf emps' w" if "w \<in> set ws" for w
    using that by (intro Cons.prems) (simp add: p)
  ultimately show ?case
    by (simp add: p plan_assignments_Cons)
qed

lemma FL_notin_run_plan: "''FL'' \<notin> fst ` set (run_plan clk s)"
  using run_plan_stations [of clk s] FL_notin_sortedStations [of "stationNeeds s"]
  by (metis set_map)

lemma plan_assignments_placements:
  "map placement (plan_assignments emps P) = map placement (plan_assignments emps' P)"
  by (simp add: plan_assignments_placement [of _ _ 0])

text \<open>
  C9. Two runs on states that agree on the selected workers and their order, on the needs, on
  the history of every selected worker and on the free text place the same workers at the
  same stations in the same order and make the same FL entry, whatever else differs (the
  tables, the earlier assignments, the clock). The display name of an entry is read from
  the roster: where the rosters give the selected workers the same names, the snapshots are
  equal.
\<close>

theorem distribute_deterministic:
  assumes sel: "selectedEmployees s1 = selectedEmployees s2"
    and needs: "stationNeeds s1 = stationNeeds s2"
    and hist: "\<forall>w \<in> set (selectedEmployees s1).
                 getEmployeeHistory clk1 (work_history s1) w = getEmployeeHistory clk2 (work_history s2) w"
    and fl: "flManual s1 = flManual s2"
    and ne: "selectedEmployees s1 \<noteq> []"
  shows "map placement (assignments (distributeEmployees clk1 s1))
           = map placement (assignments (distributeEmployees clk2 s2))
         \<and> filter (\<lambda>a. station a = ''FL'') (assignments (distributeEmployees clk1 s1))
           = filter (\<lambda>a. station a = ''FL'') (assignments (distributeEmployees clk2 s2))
         \<and> ((\<forall>w \<in> set (selectedEmployees s1).
                empNameOf (employees s1) w = empNameOf (employees s2) w)
            \<longrightarrow> assignments (distributeEmployees clk1 s1) = assignments (distributeEmployees clk2 s2))"
proof -
  have ne2: "selectedEmployees s2 \<noteq> []"
    using ne sel by simp
  have "spec_plan (needed_of s1) (visits_of clk1 s1) (sortedStations (stationNeeds s1)) (selectedEmployees s1)
          = spec_plan (needed_of s1) (visits_of clk2 s2) (sortedStations (stationNeeds s1)) (selectedEmployees s1)"
    by (rule spec_plan_cong) (simp add: visits_of_def hist)
  moreover have "needed_of s1 = needed_of s2"
    by (simp add: needed_of_def [abs_def] needs)
  ultimately have plan: "run_plan clk1 s1 = run_plan clk2 s2"
    by (simp add: run_plan_def sel needs)
  have nofl: "filter (\<lambda>a. station a = ''FL'') (plan_assignments emps (run_plan clk2 s2)) = []" for emps
    by (rule plan_count_absent) (rule FL_notin_run_plan)
  have snap1: "assignments (distributeEmployees clk1 s1)
                = plan_assignments (employees s1) (run_plan clk2 s2) @
                  (if trim (flManual s2) \<noteq> []
                   then [\<lparr>employeeId = ''manual'', employeeName = flManual s2, station = ''FL'', lane = None\<rparr>]
                   else [])"
    by (simp add: distribute_run [OF ne] plan fl)
  have snap2: "assignments (distributeEmployees clk2 s2)
                = plan_assignments (employees s2) (run_plan clk2 s2) @
                  (if trim (flManual s2) \<noteq> []
                   then [\<lparr>employeeId = ''manual'', employeeName = flManual s2, station = ''FL'', lane = None\<rparr>]
                   else [])"
    by (simp add: distribute_run [OF ne2])
  have c1: "map placement (assignments (distributeEmployees clk1 s1))
              = map placement (assignments (distributeEmployees clk2 s2))"
    unfolding snap1 snap2
    using plan_assignments_placements [of "employees s1" "run_plan clk2 s2" "employees s2"]
    by simp
  have c2: "filter (\<lambda>a. station a = ''FL'') (assignments (distributeEmployees clk1 s1))
              = filter (\<lambda>a. station a = ''FL'') (assignments (distributeEmployees clk2 s2))"
    unfolding snap1 snap2 by (simp add: nofl)
  have c3: "assignments (distributeEmployees clk1 s1) = assignments (distributeEmployees clk2 s2)"
    if names: "\<forall>w \<in> set (selectedEmployees s1).
                 empNameOf (employees s1) w = empNameOf (employees s2) w"
  proof -
    have "set (concat (map snd (run_plan clk2 s2))) \<subseteq> set (selectedEmployees s1)"
      unfolding run_plan_def sel by (rule spec_plan_workers_subset)
    then have "plan_assignments (employees s1) (run_plan clk2 s2)
                 = plan_assignments (employees s2) (run_plan clk2 s2)"
      using names by (intro plan_assignments_cong) blast
    then show ?thesis
      unfolding snap1 snap2 by simp
  qed
  show ?thesis
    using c1 c2 c3 by blast
qed

theorem distribute_deterministic_witness:
  "(selectedEmployees ex_history_state = selectedEmployees ex_other_state
    \<and> stationNeeds ex_history_state = stationNeeds ex_other_state
    \<and> selectedEmployees ex_history_state = [''w1'', ''w2'', ''w3'']
    \<and> getEmployeeHistory ex_clock (work_history ex_history_state) ''w1''
        = getEmployeeHistory ex_other_clock (work_history ex_other_state) ''w1''
    \<and> getEmployeeHistory ex_clock (work_history ex_history_state) ''w2''
        = getEmployeeHistory ex_other_clock (work_history ex_other_state) ''w2''
    \<and> getEmployeeHistory ex_clock (work_history ex_history_state) ''w3''
        = getEmployeeHistory ex_other_clock (work_history ex_other_state) ''w3''
    \<and> flManual ex_history_state = flManual ex_other_state
    \<and> selectedEmployees ex_history_state \<noteq> [])
   \<and> map placement (assignments (distributeEmployees ex_clock ex_history_state))
       = map placement (assignments (distributeEmployees ex_other_clock ex_other_state))
   \<and> map placement (assignments (distributeEmployees ex_other_clock ex_other_state))
       = [(''w2'', ''Pack'', None), (''w3'', ''Pack'', None), (''w1'', ''Plock'', None),
          (''manual'', ''FL'', None)]"
proof -
  have h1: "selectedEmployees ex_history_state = selectedEmployees ex_other_state"
    and h2: "stationNeeds ex_history_state = stationNeeds ex_other_state"
    and h4: "flManual ex_history_state = flManual ex_other_state"
    and h5: "selectedEmployees ex_history_state \<noteq> []"
    by (simp_all add: ex_other_state_def ex_history_state_def)
  have sel: "selectedEmployees ex_history_state = [''w1'', ''w2'', ''w3'']"
    by (simp add: ex_history_state_def)
  have w1: "getEmployeeHistory ex_clock (work_history ex_history_state) ''w1''
        = getEmployeeHistory ex_other_clock (work_history ex_other_state) ''w1''"
    by code_simp
  have w2: "getEmployeeHistory ex_clock (work_history ex_history_state) ''w2''
        = getEmployeeHistory ex_other_clock (work_history ex_other_state) ''w2''"
    by code_simp
  have w3: "getEmployeeHistory ex_clock (work_history ex_history_state) ''w3''
        = getEmployeeHistory ex_other_clock (work_history ex_other_state) ''w3''"
    by code_simp
  have h3: "\<forall>w \<in> set (selectedEmployees ex_history_state).
          getEmployeeHistory ex_clock (work_history ex_history_state) w
            = getEmployeeHistory ex_other_clock (work_history ex_other_state) w"
    unfolding sel using w1 w2 w3 by simp
  have run: "map placement (assignments (distributeEmployees ex_other_clock ex_other_state))
       = [(''w2'', ''Pack'', None), (''w3'', ''Pack'', None), (''w1'', ''Plock'', None),
          (''manual'', ''FL'', None)]"
    by code_simp
  show ?thesis
    using distribute_deterministic [OF h1 h2 h3 h4 h5] h1 h2 sel w1 w2 w3 h4 h5 run by blast
qed

section \<open>The overuse warning\<close>

text \<open>Every count that \<open>getEmployeeHistory\<close> records is positive: a station enters the
  object with its first row. So the mean over the object is the mean over the stations
  with a visit.\<close>

lemma set_update_cases:
  "p \<in> set (AList.update k v al) \<Longrightarrow> p = (k, v) \<or> p \<in> set al"
  by (induction al) (auto split: if_splits)

lemma countStation_positive:
  assumes "\<And>p. p \<in> set h \<Longrightarrow> 0 < snd p" and "p \<in> set (countStation h r)"
  shows "0 < snd p"
proof -
  have "p = (row_station r, histCount h (row_station r) + 1) \<or> p \<in> set h"
    using assms(2) unfolding countStation_def by (rule set_update_cases)
  then show ?thesis
  proof
    assume "p = (row_station r, histCount h (row_station r) + 1)"
    then show ?thesis by simp
  next
    assume "p \<in> set h"
    then show ?thesis by (rule assms(1))
  qed
qed

lemma foldl_countStation_positive:
  "(\<And>p. p \<in> set h \<Longrightarrow> 0 < snd p) \<Longrightarrow> p \<in> set (foldl countStation h rows) \<Longrightarrow> 0 < snd p"
proof (induction rows arbitrary: h)
  case Nil
  then show ?case by simp
next
  case (Cons r rows)
  show ?case
  proof (rule Cons.IH [of "countStation h r"])
    show "0 < snd q" if "q \<in> set (countStation h r)" for q
      using Cons.prems(1) that by (rule countStation_positive)
    show "p \<in> set (foldl countStation (countStation h r) rows)"
      using Cons.prems(2) by simp
  qed
qed

lemma getEmployeeHistory_positive:
  "p \<in> set (getEmployeeHistory clk rows w) \<Longrightarrow> 0 < snd p"
  unfolding getEmployeeHistory_def by (rule foldl_countStation_positive [of "[]"]) simp_all

lemma foldl_plus_sum_list: "foldl (\<lambda>a b. a + b) a xs = a + sum_list xs" for a :: nat
  by (induction xs arbitrary: a) simp_all

lemma tooOften_spec_warn:
  assumes "\<And>p. p \<in> set h \<Longrightarrow> 0 < snd p"
  shows "tooOften h toStation = spec_warn h toStation"
proof -
  have "filter (\<lambda>v. v \<noteq> 0) (map snd h) = map snd h"
    using assms by (intro filter_True) auto
  then have e: "spec_entries h = map snd h"
    by (simp add: spec_entries_def)
  have "avgCount h = spec_avg h"
    by (simp add: avgCount_def spec_avg_def e foldl_plus_sum_list)
  then show ?thesis
    by (simp add: tooOften_def spec_warn_def Let_def mult.commute)
qed

text \<open>
  C2. When a dragged worker is dropped on another place, the handler raises the warning
  exactly when the evaluation of section 4.5 warns on the worker's history map: the count at
  the target station (0 when absent) exceeds 1.5 times the mean of the entries with a visit
  (0 when there is none) and exceeds 5. Stations without a visit have no entry and do not
  enter the mean.
\<close>

theorem overuse_warning_iff:
  "draggedEmployee s = Some d \<Longrightarrow> \<not> (station d = toStation \<and> lane d = toLane) \<Longrightarrow>
     (warningDialog (handleDrop clk toStation toLane s) \<noteq> None)
       = spec_warn (getEmployeeHistory clk (work_history s) (employeeId d)) toStation
     \<and> tooOften (getEmployeeHistory clk (work_history s) (employeeId d)) toStation
       = spec_warn (getEmployeeHistory clk (work_history s) (employeeId d)) toStation"
proof -
  assume dr: "draggedEmployee s = Some d" and mv: "\<not> (station d = toStation \<and> lane d = toLane)"
  have eq: "tooOften (getEmployeeHistory clk (work_history s) (employeeId d)) toStation
       = spec_warn (getEmployeeHistory clk (work_history s) (employeeId d)) toStation"
    by (rule tooOften_spec_warn) (rule getEmployeeHistory_positive)
  have "(warningDialog (handleDrop clk toStation toLane s) \<noteq> None)
          = tooOften (getEmployeeHistory clk (work_history s) (employeeId d)) toStation"
    using dr mv by (auto simp add: handleDrop_def performMove_def Let_def)
  with eq show ?thesis by simp
qed

theorem overuse_warning_iff_witness:
  "draggedEmployee ex_overuse_state = Some ex_dragged
   \<and> \<not> (station ex_dragged = ''A'' \<and> lane ex_dragged = None)
   \<and> getEmployeeHistory ex_clock (work_history ex_overuse_state) (employeeId ex_dragged)
       = [(''A'', 10), (''B'', 2), (''C'', 1)]
   \<and> spec_avg [(''A'', 10), (''B'', 2), (''C'', 1)] = 13 / 3
   \<and> spec_warn [(''A'', 10), (''B'', 2), (''C'', 1)] ''A''
   \<and> \<not> spec_warn [(''A'', 10), (''B'', 2), (''C'', 1)] ''B''
   \<and> warningDialog (handleDrop ex_clock ''A'' None ex_overuse_state) \<noteq> None
   \<and> warningDialog (handleDrop ex_clock ''B'' None ex_overuse_state) = None"
proof -
  have dr: "draggedEmployee ex_overuse_state = Some ex_dragged"
    by (simp add: ex_overuse_state_def ex_drag_state_def)
  have mvA: "\<not> (station ex_dragged = ''A'' \<and> lane ex_dragged = None)"
    and mvB: "\<not> (station ex_dragged = ''B'' \<and> lane ex_dragged = None)"
    by (simp_all add: ex_dragged_def)
  have h: "getEmployeeHistory ex_clock (work_history ex_overuse_state) (employeeId ex_dragged)
       = [(''A'', 10), (''B'', 2), (''C'', 1)]"
    by code_simp
  have avg: "spec_avg [(''A'', 10), (''B'', 2), (''C'', 1)] = 13 / 3"
    by (simp add: spec_avg_def spec_entries_def)
  have wA: "spec_warn [(''A'', 10), (''B'', 2), (''C'', 1)] ''A''"
    unfolding spec_warn_def avg by (simp add: histCount_def)
  have wB: "\<not> spec_warn [(''A'', 10), (''B'', 2), (''C'', 1)] ''B''"
    unfolding spec_warn_def avg by (simp add: histCount_def)
  show ?thesis
    using overuse_warning_iff [OF dr mvA, of ex_clock] overuse_warning_iff [OF dr mvB, of ex_clock]
      dr mvA h avg wA wB
    by simp
qed

text \<open>
  C10. A worker whose history map holds one station only, with any count \<open>n\<close>, is moved
  to that station without a warning: count and mean are both \<open>n\<close>, and \<open>n\<close> does not
  exceed 1.5 times itself. The drop is performed at once.
\<close>

theorem single_station_never_warned:
  "draggedEmployee s = Some d \<Longrightarrow> \<not> (station d = st \<and> lane d = toLane) \<Longrightarrow>
   getEmployeeHistory clk (work_history s) (employeeId d) = [(st, n)] \<Longrightarrow>
     \<not> tooOften [(st, n)] st
     \<and> avgCount [(st, n)] = of_nat n
     \<and> handleDrop clk st toLane s = performMove clk st toLane s"
proof -
  assume dr: "draggedEmployee s = Some d" and mv: "\<not> (station d = st \<and> lane d = toLane)"
    and h: "getEmployeeHistory clk (work_history s) (employeeId d) = [(st, n)]"
  have avg: "avgCount [(st, n)] = of_nat n"
    by (simp add: avgCount_def)
  have "(of_nat n :: rat) \<le> of_nat n * (3 / 2)"
    by simp
  then have no: "\<not> tooOften [(st, n)] st"
    by (simp add: tooOften_def avg histCount_def Let_def not_less)
  have "handleDrop clk st toLane s = performMove clk st toLane s"
    using dr mv no by (auto simp add: handleDrop_def h Let_def)
  with no avg show ?thesis by simp
qed

theorem single_station_never_warned_witness:
  "draggedEmployee ex_single_state = Some ex_dragged
   \<and> \<not> (station ex_dragged = ''Pack'' \<and> lane ex_dragged = Some 3)
   \<and> getEmployeeHistory ex_clock (work_history ex_single_state) (employeeId ex_dragged) = [(''Pack'', 24)]
   \<and> \<not> tooOften [(''Pack'', 24)] ''Pack''
   \<and> handleDrop ex_clock ''Pack'' (Some 3) ex_single_state
       = performMove ex_clock ''Pack'' (Some 3) ex_single_state"
proof -
  have dr: "draggedEmployee ex_single_state = Some ex_dragged"
    by (simp add: ex_single_state_def ex_drag_state_def)
  have mv: "\<not> (station ex_dragged = ''Pack'' \<and> lane ex_dragged = Some 3)"
    by (simp add: ex_dragged_def)
  have h: "getEmployeeHistory ex_clock (work_history ex_single_state) (employeeId ex_dragged) = [(''Pack'', 24)]"
    by code_simp
  show ?thesis
    using single_station_never_warned [OF dr mv h] dr mv h by simp
qed

section \<open>The rotation predicate and the drop handler\<close>

text \<open>
  C3 does not hold of the code: the drop handler never consults a last-station map. In
  \<open>ex_drag_state\<close> worker w1 was at Pack the day before and is at Plock today; with Pack
  as the recorded last station the rotation predicate forbids Pack, and the drop on Pack is
  applied all the same.
\<close>

theorem move_to_last_station_counterexample:
  "\<not> canAssignToStation ''w1'' ''Pack'' [(''w1'', Some ''Pack'')]
   \<and> assignments (handleDrop ex_clock ''Pack'' None ex_drag_state)
       = [\<lparr>employeeId = ''w2'', employeeName = js ''Bo'', station = ''Pack'', lane = None\<rparr>,
          \<lparr>employeeId = ''w1'', employeeName = js ''Anna'', station = ''Pack'', lane = None\<rparr>]
   \<and> daily_assignments (handleDrop ex_clock ''Pack'' None ex_drag_state)
       = [ex_row ''w2'' ''Pack'' 200, ex_row ''w1'' ''Pack'' 200]"
proof -
  have "\<not> canAssignToStation ''w1'' ''Pack'' [(''w1'', Some ''Pack'')]"
    by (simp add: canAssignToStation_def)
  moreover have "assignments (handleDrop ex_clock ''Pack'' None ex_drag_state)
       = [\<lparr>employeeId = ''w2'', employeeName = js ''Bo'', station = ''Pack'', lane = None\<rparr>,
          \<lparr>employeeId = ''w1'', employeeName = js ''Anna'', station = ''Pack'', lane = None\<rparr>]"
    by code_simp
  moreover have "daily_assignments (handleDrop ex_clock ''Pack'' None ex_drag_state)
       = [ex_row ''w2'' ''Pack'' 200, ex_row ''w1'' ''Pack'' 200]"
    by code_simp
  ultimately show ?thesis by simp
qed

text \<open>
  C3, as the code has it. A drop passes through the overuse evaluation only. Dropped on the
  station and lane the dragged entry already has, nothing changes. Dropped elsewhere, the
  move is held behind the warning dialog when the evaluation warns, the snapshot and both
  tables unchanged and the confirmation bound to the same move; otherwise it is performed:
  the entry is in the snapshot and the row in the table, whatever the worker's last station
  was.
\<close>

theorem move_guarded_by_overuse_only:
  "draggedEmployee s = Some d \<Longrightarrow>
     (station d = toStation \<and> lane d = toLane
        \<longrightarrow> handleDrop clk toStation toLane s = s\<lparr>draggedEmployee := None\<rparr>)
   \<and> (\<not> (station d = toStation \<and> lane d = toLane)
        \<and> tooOften (getEmployeeHistory clk (work_history s) (employeeId d)) toStation
        \<longrightarrow> assignments (handleDrop clk toStation toLane s) = assignments s
            \<and> daily_assignments (handleDrop clk toStation toLane s) = daily_assignments s
            \<and> work_history (handleDrop clk toStation toLane s) = work_history s
            \<and> map_option onConfirm (warningDialog (handleDrop clk toStation toLane s))
                = Some (toStation, toLane))
   \<and> (\<not> (station d = toStation \<and> lane d = toLane)
        \<and> \<not> tooOften (getEmployeeHistory clk (work_history s) (employeeId d)) toStation
        \<longrightarrow> handleDrop clk toStation toLane s = performMove clk toStation toLane s
            \<and> d\<lparr>station := toStation, lane := toLane\<rparr>
                 \<in> set (assignments (handleDrop clk toStation toLane s))
            \<and> \<lparr>employee_id = employeeId d, row_station = toStation, row_date = today clk,
                 row_lane = toLane\<rparr> \<in> set (daily_assignments (handleDrop clk toStation toLane s)))"
  by (auto simp add: handleDrop_def performMove_def Let_def)

theorem move_guarded_by_overuse_only_witness:
  "draggedEmployee ex_drag_state = Some ex_dragged
   \<and> \<not> (station ex_dragged = ''Pack'' \<and> lane ex_dragged = None)
   \<and> \<not> tooOften (getEmployeeHistory ex_clock (work_history ex_drag_state) (employeeId ex_dragged)) ''Pack''
   \<and> handleDrop ex_clock ''Pack'' None ex_drag_state = performMove ex_clock ''Pack'' None ex_drag_state
   \<and> ex_dragged\<lparr>station := ''Pack'', lane := None\<rparr>
        \<in> set (assignments (handleDrop ex_clock ''Pack'' None ex_drag_state))
   \<and> handleDrop ex_clock ''Plock'' None ex_drag_state = ex_drag_state\<lparr>draggedEmployee := None\<rparr>
   \<and> tooOften (getEmployeeHistory ex_clock (work_history ex_overuse_state) (employeeId ex_dragged)) ''A''
   \<and> assignments (handleDrop ex_clock ''A'' None ex_overuse_state) = assignments ex_overuse_state"
proof -
  have dr: "draggedEmployee ex_drag_state = Some ex_dragged"
    by (simp add: ex_drag_state_def)
  have dr': "draggedEmployee ex_overuse_state = Some ex_dragged"
    by (simp add: ex_overuse_state_def ex_drag_state_def)
  have mv: "\<not> (station ex_dragged = ''Pack'' \<and> lane ex_dragged = None)"
    and mv': "\<not> (station ex_dragged = ''A'' \<and> lane ex_dragged = None)"
    and same: "station ex_dragged = ''Plock'' \<and> lane ex_dragged = None"
    by (simp_all add: ex_dragged_def)
  have no: "\<not> tooOften (getEmployeeHistory ex_clock (work_history ex_drag_state) (employeeId ex_dragged)) ''Pack''"
    by code_simp
  have yes: "tooOften (getEmployeeHistory ex_clock (work_history ex_overuse_state) (employeeId ex_dragged)) ''A''"
    by code_simp
  show ?thesis
    using move_guarded_by_overuse_only [OF dr, of "''Pack''" None ex_clock]
      move_guarded_by_overuse_only [OF dr, of "''Plock''" None ex_clock]
      move_guarded_by_overuse_only [OF dr', of "''A''" None ex_clock]
      dr mv mv' same no yes
    by blast
qed

section \<open>The history ledger after a second run\<close>

text \<open>A run appends to \<open>work_history\<close> and deletes nothing from it, while
  \<open>performMove\<close> writes the same deletion and the same insertion to both tables.\<close>

lemma distribute_never_deletes_history:
  "selectedEmployees s \<noteq> [] \<Longrightarrow>
     work_history (distributeEmployees clk s) = work_history s @ plan_rows (today clk) (run_plan clk s)"
  by (simp add: distribute_run)

lemma performMove_same_writes:
  "draggedEmployee s = Some d \<Longrightarrow>
     \<exists>del new_row.
       daily_assignments (performMove clk toStation toLane s) = filter del (daily_assignments s) @ [new_row]
       \<and> work_history (performMove clk toStation toLane s) = filter del (work_history s) @ [new_row]"
  by (auto simp add: performMove_def Let_def)

text \<open>
  C1 asks that after every run the history rows of the day are the assignment rows of the
  day. Two runs on the first day of \<open>ex_fresh_state\<close>: the first places w1 at Plock; the
  second, with w1 now counted once at Plock, places w2 there. The assignment rows of the
  day are replaced, the history row of the first run stays beside the new one.
\<close>

theorem second_run_leaves_stale_history:
  "map row_placement (rows_on 200 (daily_assignments (distributeEmployees ex_clock ex_fresh_state)))
     = [(''w1'', ''Plock'', None)]
   \<and> map row_placement (rows_on 200 (work_history (distributeEmployees ex_clock ex_fresh_state)))
     = [(''w1'', ''Plock'', None)]
   \<and> map row_placement (rows_on 200
        (daily_assignments (distributeEmployees ex_clock (distributeEmployees ex_clock ex_fresh_state))))
     = [(''w2'', ''Plock'', None)]
   \<and> map row_placement (rows_on 200
        (work_history (distributeEmployees ex_clock (distributeEmployees ex_clock ex_fresh_state))))
     = [(''w1'', ''Plock'', None), (''w2'', ''Plock'', None)]
   \<and> set (map row_placement (rows_on 200
        (work_history (distributeEmployees ex_clock (distributeEmployees ex_clock ex_fresh_state)))))
     \<noteq> set (map row_placement (rows_on 200
        (daily_assignments (distributeEmployees ex_clock (distributeEmployees ex_clock ex_fresh_state)))))"
proof -
  have a1: "map row_placement (rows_on 200 (daily_assignments (distributeEmployees ex_clock ex_fresh_state)))
     = [(''w1'', ''Plock'', None)]"
    by code_simp
  have h1: "map row_placement (rows_on 200 (work_history (distributeEmployees ex_clock ex_fresh_state)))
     = [(''w1'', ''Plock'', None)]"
    by code_simp
  have a2: "map row_placement (rows_on 200
        (daily_assignments (distributeEmployees ex_clock (distributeEmployees ex_clock ex_fresh_state))))
     = [(''w2'', ''Plock'', None)]"
    by code_simp
  have h2: "map row_placement (rows_on 200
        (work_history (distributeEmployees ex_clock (distributeEmployees ex_clock ex_fresh_state))))
     = [(''w1'', ''Plock'', None), (''w2'', ''Plock'', None)]"
    by code_simp
  show ?thesis
    unfolding a1 h1 a2 h2 by simp
qed

section \<open>Rejection of an empty selection\<close>

text \<open>
  C8. With no worker selected, \<open>distributeEmployees\<close> returns before its first store call:
  both tables, the assignment snapshot and every other part of the state are as before;
  the only effect is the destructive toast "Ingen vald".
\<close>

theorem distribute_empty_selection_rejected:
  "selectedEmployees s = [] \<Longrightarrow>
     distributeEmployees clk s = s\<lparr>toasts := toasts s @ [IngenVald]\<rparr>
     \<and> daily_assignments (distributeEmployees clk s) = daily_assignments s
     \<and> work_history (distributeEmployees clk s) = work_history s
     \<and> assignments (distributeEmployees clk s) = assignments s"
  by (simp add: distributeEmployees_def)

theorem distribute_empty_selection_rejected_witness:
  "selectedEmployees (ex_state\<lparr>selectedEmployees := []\<rparr>) = []
   \<and> distributeEmployees ex_clock (ex_state\<lparr>selectedEmployees := []\<rparr>)
       = ex_state\<lparr>selectedEmployees := [], toasts := [IngenVald]\<rparr>
   \<and> daily_assignments (distributeEmployees ex_clock (ex_state\<lparr>selectedEmployees := []\<rparr>))
       = [ex_row ''w1'' ''Plock'' 200]"
  using distribute_empty_selection_rejected [of "ex_state\<lparr>selectedEmployees := []\<rparr>" ex_clock]
  by (simp add: ex_state_def)

end
